theory Spec2Isabelle
  imports Main "HOL-Library.Word"
begin

section \<open>Text and bytes\<close>

text \<open>
  A Python \<open>str\<close> is a sequence of Unicode code points, a \<open>bytes\<close> object a sequence
  of octets. File names are \<open>str\<close>, file contents are \<open>bytes\<close>.
\<close>

type_synonym ustr = "nat list"
type_synonym bytes = "8 word list"

text \<open>An ASCII literal of the source, as code points.\<close>

definition ascii_of :: "string \<Rightarrow> ustr" where
  "ascii_of s = map of_char s"

section \<open>filename\_unicode\_fixer.py: the escape decoder\<close>

text \<open>The character class \<open>[0-9a-fA-F]\<close> of the pattern.\<close>

definition is_hex_digit :: "nat \<Rightarrow> bool" where
  "is_hex_digit c = ((48 \<le> c \<and> c \<le> 57) \<or> (97 \<le> c \<and> c \<le> 102) \<or> (65 \<le> c \<and> c \<le> 70))"

text \<open>The value of one digit, and \<open>int(hex_code, 16)\<close> on a string of hex digits.\<close>

definition hex_value :: "nat \<Rightarrow> nat" where
  "hex_value c = (if c \<le> 57 then c - 48 else if 97 \<le> c then c - 87 else c - 55)"

definition int16 :: "ustr \<Rightarrow> nat" where
  "int16 ds = foldl (\<lambda>acc d. 16 * acc + hex_value d) 0 ds"

text \<open>
  The pattern \<open>#U([0-9a-fA-F]{4})\<close> matched at the start of a string: the group and the
  text after the match.
\<close>

fun match_escape :: "ustr \<Rightarrow> (ustr \<times> ustr) option" where
  "match_escape (h # u # a # b # c # d # rest) =
     (if h = 35 \<and> u = 85 \<and> is_hex_digit a \<and> is_hex_digit b \<and> is_hex_digit c \<and> is_hex_digit d
      then Some ([a, b, c, d], rest) else None)"
| "match_escape _ = None"

text \<open>
  \<open>replace_unicode_match\<close>: \<open>chr\<close> raises ValueError outside \<open>range(0x110000)\<close>, and the
  handler then returns the matched text \<open>match.group(0)\<close>.
\<close>

definition replace_unicode_match :: "ustr \<Rightarrow> ustr" where
  "replace_unicode_match hex_code =
     (if int16 hex_code < 1114112 then [int16 hex_code] else [35, 85] @ hex_code)"

text \<open>
  \<open>re.sub(pattern, replace_unicode_match, filename)\<close>: the scan goes left to right, a
  match is replaced and the scan resumes after it, any other character is copied.
\<close>

fun decode_unicode_escape :: "ustr \<Rightarrow> ustr" where
  "decode_unicode_escape (h # u # a # b # c # d # rest) =
     (case match_escape (h # u # a # b # c # d # rest) of
        Some (hex_code, after) \<Rightarrow> replace_unicode_match hex_code @ decode_unicode_escape rest
      | None \<Rightarrow> h # decode_unicode_escape (u # a # b # c # d # rest))"
| "decode_unicode_escape (x # xs) = x # decode_unicode_escape xs"
| "decode_unicode_escape [] = []"

text \<open>\<open>re.search(r'#U[0-9a-fA-F]{4}', name)\<close>: does the pattern match anywhere?\<close>

fun search_escape :: "ustr \<Rightarrow> bool" where
  "search_escape [] = False"
| "search_escape (x # xs) = (match_escape (x # xs) \<noteq> None \<or> search_escape xs)"

section \<open>encoding\_fixer.py: the mojibake table\<close>

text \<open>\<open>sub in s\<close> on strings.\<close>

fun contains :: "ustr \<Rightarrow> ustr \<Rightarrow> bool" where
  "contains sub [] = (sub = [])"
| "contains sub (x # xs) = (take (length sub) (x # xs) = sub \<or> contains sub xs)"

text \<open>
  \<open>s.replace(old, new)\<close>: every non-overlapping occurrence of \<open>old\<close>, found left to
  right, is replaced. With an empty \<open>old\<close> Python puts \<open>new\<close> before every character
  and at the end.
\<close>

fun interleave :: "ustr \<Rightarrow> ustr \<Rightarrow> ustr" where
  "interleave new [] = new"
| "interleave new (x # xs) = new @ x # interleave new xs"

function str_replace :: "ustr \<Rightarrow> ustr \<Rightarrow> ustr \<Rightarrow> ustr" where
  "str_replace old new s =
     (if old = [] then interleave new s
      else if s = [] then []
      else if take (length old) s = old then new @ str_replace old new (drop (length old) s)
      else hd s # str_replace old new (tl s))"
  by pat_completeness auto
termination
  by (relation "measure (\<lambda>(old, new, s). length s)") auto

text \<open>
  The dictionary \<open>mojibake_fixes\<close>, in its insertion order (the order in which the loop
  over \<open>items()\<close> visits it). The fourth pattern is U+00C3 followed by a plain space.
\<close>

definition mojibake_fixes :: "(ustr \<times> ustr) list" where
  "mojibake_fixes =
     [([0xE6, 0x2013, 0x2021, 0xE4, 0xBB, 0xB6], [0x6587, 0x4EF6]),
      ([0xC3, 0xA9], [0xE9]),
      ([0xC3, 0xA8], [0xE8]),
      ([0xC3, 0x20], [0xE0]),
      ([0xC3, 0xB1], [0xF1]),
      ([0xC3, 0xA4], [0xE4]),
      ([0xC3, 0xB6], [0xF6]),
      ([0xC3, 0xBC], [0xFC])]"

text \<open>The loop \<open>for mojibake, correct in mojibake_fixes.items(): new_filename = ...\<close>.\<close>

definition apply_mojibake_fixes :: "ustr \<Rightarrow> ustr" where
  "apply_mojibake_fixes filename =
     foldl (\<lambda>new_filename (mojibake, correct). str_replace mojibake correct new_filename)
       filename mojibake_fixes"

section \<open>The standard library, as far as the two tools use it\<close>

subsection \<open>Exceptions\<close>

datatype exn = OSError | UnicodeEncodeError | LookupError

subsection \<open>Codecs\<close>

text \<open>
  A decoder cuts its input into pieces it can map and pieces it cannot; the error handler
  decides what becomes of the latter. With \<open>errors='ignore'\<close> an unmappable piece yields
  nothing and decoding resumes after it.
\<close>

datatype chunk = is_Chars: Chars (chars_of: ustr) | Unmappable bytes

type_synonym codec = "bytes \<Rightarrow> chunk list"

fun ignore_handler :: "chunk \<Rightarrow> ustr" where
  "ignore_handler (Chars s) = s"
| "ignore_handler (Unmappable bs) = []"

definition decode_ignore :: "codec \<Rightarrow> bytes \<Rightarrow> ustr" where
  "decode_ignore cd bs = concat (map ignore_handler (cd bs))"

text \<open>\<open>latin1\<close>: every byte is the code point of the same number.\<close>

definition latin1_decode :: codec where
  "latin1_decode bs = map (\<lambda>b. Chars [unat b]) bs"

text \<open>\<open>s.encode('latin1')\<close> raises UnicodeEncodeError on a code point above U+00FF.\<close>

definition encode_latin1 :: "ustr \<Rightarrow> exn + bytes" where
  "encode_latin1 s = (if list_all (\<lambda>c. c < 256) s then Inr (map of_nat s) else Inl UnicodeEncodeError)"

text \<open>
  \<open>cp1252\<close>: as Latin-1 outside 0x80..0x9F; there 27 bytes have code points of their
  own and five (0x81, 0x8D, 0x8F, 0x90, 0x9D) have none.
\<close>

definition cp1252_high :: "(8 word \<times> nat) list" where
  "cp1252_high =
     [(0x80, 0x20AC), (0x82, 0x201A), (0x83, 0x0192), (0x84, 0x201E), (0x85, 0x2026),
      (0x86, 0x2020), (0x87, 0x2021), (0x88, 0x02C6), (0x89, 0x2030), (0x8A, 0x0160),
      (0x8B, 0x2039), (0x8C, 0x0152), (0x8E, 0x017D), (0x91, 0x2018), (0x92, 0x2019),
      (0x93, 0x201C), (0x94, 0x201D), (0x95, 0x2022), (0x96, 0x2013), (0x97, 0x2014),
      (0x98, 0x02DC), (0x99, 0x2122), (0x9A, 0x0161), (0x9B, 0x203A), (0x9C, 0x0153),
      (0x9E, 0x017E), (0x9F, 0x0178)]"

definition cp1252_map :: "8 word \<Rightarrow> nat option" where
  "cp1252_map b = (if b < 0x80 \<or> 0xA0 \<le> b then Some (unat b) else map_of cp1252_high b)"

definition cp1252_decode :: codec where
  "cp1252_decode bs =
     map (\<lambda>b. case cp1252_map b of Some c \<Rightarrow> Chars [c] | None \<Rightarrow> Unmappable [b]) bs"

text \<open>
  \<open>gbk\<close>, \<open>gb2312\<close> and \<open>big5\<close> share one decoder: a byte below 0x80 is ASCII; any
  other byte is looked up together with the byte after it in the codec's table, and where the
  table has no entry (or no byte follows) the first byte alone is the unmappable piece. The
  tables themselves are data of the interpreter and stay a parameter.
\<close>

type_synonym dbcs_table = "8 word \<Rightarrow> 8 word \<Rightarrow> nat option"

record cjk_tables =
  gbk_table :: dbcs_table
  gb2312_table :: dbcs_table
  big5_table :: dbcs_table

fun dbcs_decode :: "dbcs_table \<Rightarrow> codec" where
  "dbcs_decode m [] = []"
| "dbcs_decode m [c] = (if c < 0x80 then [Chars [unat c]] else [Unmappable [c]])"
| "dbcs_decode m (c # d # rest) =
     (if c < 0x80 then Chars [unat c] # dbcs_decode m (d # rest)
      else case m c d of
             Some u \<Rightarrow> Chars [u] # dbcs_decode m rest
           | None \<Rightarrow> Unmappable [c] # dbcs_decode m (d # rest))"

text \<open>The codec registry, for the five names \<open>encodings_to_try\<close> uses.\<close>

definition lookup_codec :: "cjk_tables \<Rightarrow> string \<Rightarrow> codec option" where
  "lookup_codec t enc =
     (if enc = ''latin1'' then Some latin1_decode
      else if enc = ''cp1252'' then Some cp1252_decode
      else if enc = ''gbk'' then Some (dbcs_decode (gbk_table t))
      else if enc = ''gb2312'' then Some (dbcs_decode (gb2312_table t))
      else if enc = ''big5'' then Some (dbcs_decode (big5_table t))
      else None)"

text \<open>\<open>bs.decode(enc, errors='ignore')\<close>; an unknown name raises LookupError.\<close>

definition bytes_decode_ignore :: "cjk_tables \<Rightarrow> string \<Rightarrow> bytes \<Rightarrow> exn + ustr" where
  "bytes_decode_ignore t enc bs =
     (case lookup_codec t enc of None \<Rightarrow> Inl LookupError | Some cd \<Rightarrow> Inr (decode_ignore cd bs))"

text \<open>
  UTF-8, the encoding of \<open>open(path, 'w', encoding='utf-8')\<close>: surrogates cannot be
  written.
\<close>

definition utf8_char :: "nat \<Rightarrow> bytes option" where
  "utf8_char c =
     (if c < 0x80 then Some [of_nat c]
      else if c < 0x800 then Some [of_nat (0xC0 + c div 64), of_nat (0x80 + c mod 64)]
      else if 0xD800 \<le> c \<and> c < 0xE000 then None
      else if c < 0x10000 then
        Some [of_nat (0xE0 + c div 4096), of_nat (0x80 + c div 64 mod 64), of_nat (0x80 + c mod 64)]
      else if c < 0x110000 then
        Some [of_nat (0xF0 + c div 262144), of_nat (0x80 + c div 4096 mod 64),
              of_nat (0x80 + c div 64 mod 64), of_nat (0x80 + c mod 64)]
      else None)"

definition encode_utf8 :: "ustr \<Rightarrow> exn + bytes" where
  "encode_utf8 s =
     (if list_all (\<lambda>c. utf8_char c \<noteq> None) s then Inr (concat (map (\<lambda>c. the (utf8_char c)) s))
      else Inl UnicodeEncodeError)"

text \<open>
  A file opened for reading in text mode with the default \<open>newline=None\<close> hands out
  CR LF and a lone CR as LF. (Written back on a POSIX system, LF stays LF.)
\<close>

fun universal_newlines :: "ustr \<Rightarrow> ustr" where
  "universal_newlines (c # d # rest) =
     (if c = 13 \<and> d = 10 then 10 # universal_newlines rest
      else if c = 13 then 10 # universal_newlines (d # rest)
      else c # universal_newlines (d # rest))"
| "universal_newlines [c] = (if c = 13 then [10] else [c])"
| "universal_newlines [] = []"

text \<open>\<open>str.lower\<close> on an encoding name (the names are ASCII).\<close>

definition lower_char :: "char \<Rightarrow> char" where
  "lower_char c =
     (case map_of (zip ''ABCDEFGHIJKLMNOPQRSTUVWXYZ'' ''abcdefghijklmnopqrstuvwxyz'') c of
        Some l \<Rightarrow> l
      | None \<Rightarrow> c)"

definition lower :: "string \<Rightarrow> string" where
  "lower s = map lower_char s"

subsection \<open>pathlib\<close>

text \<open>
  A pure POSIX path: its root (empty, \<open>/\<close> or \<open>//\<close>) and its components. \<open>name\<close> is the
  last component, \<open>parent\<close> drops it.
\<close>

datatype path = Path (root: ustr) (parts: "ustr list")

definition name :: "path \<Rightarrow> ustr" where
  "name p = (if parts p = [] then [] else last (parts p))"

definition parent :: "path \<Rightarrow> path" where
  "parent p = Path (root p) (butlast (parts p))"

text \<open>\<open>s.split('/')\<close>.\<close>

fun split_sep :: "ustr \<Rightarrow> ustr list" where
  "split_sep [] = [[]]"
| "split_sep (c # cs) =
     (if c = 47 then [] # split_sep cs
      else case split_sep cs of w # ws \<Rightarrow> (c # w) # ws | [] \<Rightarrow> [[c]])"

text \<open>
  Parsing a string as a path: exactly two leading slashes are the root \<open>//\<close>, any other
  number the root \<open>/\<close>; empty components and \<open>.\<close> are dropped, \<open>..\<close> is kept.
\<close>

definition parse_root :: "ustr \<Rightarrow> ustr" where
  "parse_root s =
     (if take 2 s = [47, 47] \<and> take 3 s \<noteq> [47, 47, 47] then [47, 47]
      else if take 1 s = [47] then [47] else [])"

definition parse_parts :: "ustr \<Rightarrow> ustr list" where
  "parse_parts s = filter (\<lambda>x. x \<noteq> [] \<and> x \<noteq> [46]) (split_sep s)"

text \<open>\<open>p / s\<close>: a rooted \<open>s\<close> replaces \<open>p\<close>, any other is appended to it.\<close>

definition joinpath :: "path \<Rightarrow> ustr \<Rightarrow> path" where
  "joinpath p s =
     (if parse_root s \<noteq> [] then Path (parse_root s) (parse_parts s)
      else Path (root p) (parts p @ parse_parts s))"

subsection \<open>The file system\<close>

text \<open>
  The file system is a finite store of entries: files, directories and symbolic links, each
  at its location, the list of components that leads to it from the root directory (which
  always exists). What the operating system refuses for reasons outside the store
  (permissions, names it cannot represent, a device error) is the oracle \<open>refused\<close>.
\<close>

datatype node = File bytes | Dir | Symlink ustr

datatype io_op = OpRead path | OpWrite path | OpRename path path

type_synonym location = "ustr list"

record filesystem =
  nodes :: "(location \<times> node) list"
  cwd :: location
  refused :: "io_op \<Rightarrow> bool"

definition node_at :: "filesystem \<Rightarrow> location \<Rightarrow> node option" where
  "node_at fs loc = (if loc = [] then Some Dir else map_of (nodes fs) loc)"

text \<open>
  Path resolution, component by component from a directory \<open>cur\<close>: \<open>..\<close> goes to the
  directory above, a symbolic link is replaced by its target (a rooted target starts again
  at the root), and only a directory can be walked through. The last component may be
  missing (the result is then the location where it would be), and a link in that place is
  followed only when \<open>follow\<close> is set. Resolution fails after 40 links, as on Linux.
\<close>

fun walk :: "filesystem \<Rightarrow> bool \<Rightarrow> nat \<Rightarrow> location \<Rightarrow> ustr list \<Rightarrow> location option" where
  "walk fs follow fuel cur [] = Some cur"
| "walk fs follow fuel cur (c # cs) =
     (if c = [46, 46] then walk fs follow fuel (butlast cur) cs
      else case node_at fs (cur @ [c]) of
             Some (Symlink target) \<Rightarrow>
               if cs = [] \<and> \<not> follow then Some (cur @ [c])
               else if fuel = 0 then None
               else walk fs follow (fuel - 1) (if parse_root target = [] then cur else [])
                      (parse_parts target @ cs)
           | Some Dir \<Rightarrow> walk fs follow fuel (cur @ [c]) cs
           | Some (File bs) \<Rightarrow> if cs = [] then Some (cur @ [c]) else None
           | None \<Rightarrow> if cs = [] then Some (cur @ [c]) else None)"

definition locate :: "filesystem \<Rightarrow> bool \<Rightarrow> path \<Rightarrow> location option" where
  "locate fs follow p = walk fs follow 40 (if root p = [] then cwd fs else []) (parts p)"

text \<open>
  The entry at a path: \<open>entries\<close> is the entry itself (as \<open>lstat\<close> sees it), \<open>stat\<close> the
  entry that the path leads to through symbolic links.
\<close>

definition entries :: "filesystem \<Rightarrow> path \<Rightarrow> node option" where
  "entries fs p = (case locate fs False p of None \<Rightarrow> None | Some loc \<Rightarrow> node_at fs loc)"

definition stat :: "filesystem \<Rightarrow> path \<Rightarrow> node option" where
  "stat fs p = (case locate fs True p of None \<Rightarrow> None | Some loc \<Rightarrow> node_at fs loc)"

text \<open>\<open>p.exists()\<close> and \<open>p.is_file()\<close> follow symbolic links.\<close>

definition path_exists :: "filesystem \<Rightarrow> path \<Rightarrow> bool" where
  "path_exists fs p = (stat fs p \<noteq> None)"

definition is_file :: "filesystem \<Rightarrow> path \<Rightarrow> bool" where
  "is_file fs p = (case stat fs p of Some (File bs) \<Rightarrow> True | _ \<Rightarrow> False)"

text \<open>\<open>open(p, 'rb').read()\<close>.\<close>

definition read_bytes :: "filesystem \<Rightarrow> path \<Rightarrow> exn + bytes" where
  "read_bytes fs p =
     (if refused fs (OpRead p) then Inl OSError
      else case stat fs p of Some (File bs) \<Rightarrow> Inr bs | _ \<Rightarrow> Inl OSError)"

text \<open>
  \<open>open(p, 'w')\<close> finds the file through symbolic links and empties it (or creates it);
  what is then written through the handle replaces its bytes.
\<close>

definition write_bytes :: "filesystem \<Rightarrow> location \<Rightarrow> bytes \<Rightarrow> filesystem" where
  "write_bytes fs loc bs = fs\<lparr>nodes := (loc, File bs) # filter (\<lambda>(k, n). k \<noteq> loc) (nodes fs)\<rparr>"

definition open_truncate :: "filesystem \<Rightarrow> path \<Rightarrow> exn + location \<times> filesystem" where
  "open_truncate fs p =
     (if refused fs (OpWrite p) then Inl OSError
      else case locate fs True p of
             None \<Rightarrow> Inl OSError
           | Some loc \<Rightarrow>
               (case node_at fs loc of
                  Some Dir \<Rightarrow> Inl OSError
                | _ \<Rightarrow> Inr (loc, write_bytes fs loc [])))"

text \<open>
  \<open>src.rename(dst)\<close> works on the entries themselves, not on what a link at \<open>src\<close> or
  \<open>dst\<close> points to. The entry at \<open>src\<close>, with everything below it, moves to \<open>dst\<close>. An
  entry already at \<open>dst\<close> is replaced, except that a directory only replaces an empty
  directory and only a directory replaces a directory. It raises when \<open>src\<close> is missing,
  when a directory on the way is missing, when \<open>dst\<close> lies inside \<open>src\<close>, or when the
  system refuses.
\<close>

definition has_children :: "filesystem \<Rightarrow> location \<Rightarrow> bool" where
  "has_children fs d = list_ex (\<lambda>(k, n). k \<noteq> d \<and> take (length d) k = d) (nodes fs)"

definition move_subtree :: "filesystem \<Rightarrow> location \<Rightarrow> location \<Rightarrow> filesystem" where
  "move_subtree fs s d =
     fs\<lparr>nodes :=
       map (\<lambda>(k, n). if take (length s) k = s then (d @ drop (length s) k, n) else (k, n))
         (filter (\<lambda>(k, n). take (length d) k \<noteq> d) (nodes fs))\<rparr>"

definition rename :: "filesystem \<Rightarrow> path \<Rightarrow> path \<Rightarrow> exn + filesystem" where
  "rename fs src dst =
     (if refused fs (OpRename src dst) then Inl OSError
      else case locate fs False src of
        None \<Rightarrow> Inl OSError
      | Some s \<Rightarrow>
         (case locate fs False dst of
            None \<Rightarrow> Inl OSError
          | Some d \<Rightarrow>
             if s = [] \<or> d = [] then Inl OSError
             else case node_at fs s of
               None \<Rightarrow> Inl OSError
             | Some n \<Rightarrow>
                 if s = d then Inr fs
                 else if take (length s) d = s then Inl OSError
                 else case node_at fs d of
                   None \<Rightarrow> Inr (move_subtree fs s d)
                 | Some Dir \<Rightarrow>
                     if n = Dir \<and> \<not> has_children fs d then Inr (move_subtree fs s d)
                     else Inl OSError
                 | Some other \<Rightarrow>
                     if n = Dir then Inl OSError else Inr (move_subtree fs s d)))"

section \<open>filename\_unicode\_fixer.py: \<open>fix_pathname\<close>\<close>

text \<open>
  The object keeps the list \<open>fixed_files\<close> of the renames it made; the file system is the
  state it shares with the world. (What the methods print is left out.)
\<close>

record unicode_filename_fixer =
  fixed_files :: "(path \<times> path) list"

definition fix_pathname ::
  "unicode_filename_fixer \<Rightarrow> filesystem \<Rightarrow> path \<Rightarrow> bool \<times> unicode_filename_fixer \<times> filesystem" where
  "fix_pathname self fs p =
     (let original_name = name p in
      if \<not> search_escape original_name then (False, self, fs)
      else
        let new_name = decode_unicode_escape original_name in
        if new_name = original_name then (False, self, fs)
        else
          let new_path = joinpath (parent p) new_name in
          if path_exists fs new_path then (False, self, fs)
          else
            case rename fs p new_path of
              Inr fs' \<Rightarrow> (True, self\<lparr>fixed_files := fixed_files self @ [(p, new_path)]\<rparr>, fs')
            | Inl e \<Rightarrow> (False, self, fs))"

section \<open>encoding\_fixer.py\<close>

record encoding_fixer =
  problematic_files :: "(path \<times> path) list"
  encoding_issues :: "(path \<times> string \<times> string) list"

text \<open>\<open>is_filename_valid\<close>: \<open>filename.encode('ascii')\<close> succeeds.\<close>

definition is_filename_valid :: "ustr \<Rightarrow> bool" where
  "is_filename_valid filename = list_all (\<lambda>c. c < 128) filename"

definition encodings_to_try :: "(string \<times> string) list" where
  "encodings_to_try =
     [(''latin1'', ''utf-8''), (''cp1252'', ''utf-8''), (''gbk'', ''utf-8''),
      (''gb2312'', ''utf-8''), (''big5'', ''utf-8'')]"

text \<open>
  The body of the outer \<open>try\<close> up to the test: the candidate name of one encoding. Either
  call can raise; the handler of that \<open>try\<close> then goes on to the next encoding.
\<close>

definition decoded_name :: "cjk_tables \<Rightarrow> ustr \<Rightarrow> string \<Rightarrow> exn + ustr" where
  "decoded_name t filename from_enc =
     (case encode_latin1 filename of
        Inl e \<Rightarrow> Inl e
      | Inr decoded_bytes \<Rightarrow> bytes_decode_ignore t from_enc decoded_bytes)"

text \<open>The loop \<open>for from_enc, to_enc in encodings_to_try\<close> and the two lines after it.\<close>

fun try_encodings ::
  "cjk_tables \<Rightarrow> encoding_fixer \<Rightarrow> filesystem \<Rightarrow> path \<Rightarrow> (string \<times> string) list
   \<Rightarrow> path option \<times> encoding_fixer \<times> filesystem" where
  "try_encodings t self fs file_path [] = (None, self, fs)"
| "try_encodings t self fs file_path ((from_enc, to_enc) # rest) =
     (case decoded_name t (name file_path) from_enc of
        Inl e \<Rightarrow> try_encodings t self fs file_path rest
      | Inr dn \<Rightarrow>
          let new_path = joinpath (parent file_path) dn in
          if dn \<noteq> [] \<and> is_filename_valid dn \<and> \<not> path_exists fs new_path then
            case rename fs file_path new_path of
              Inr fs' \<Rightarrow>
                (Some new_path,
                 self\<lparr>problematic_files := problematic_files self @ [(file_path, new_path)]\<rparr>, fs')
            | Inl e \<Rightarrow> try_encodings t self fs file_path rest
          else try_encodings t self fs file_path rest)"

definition fix_filename_encoding ::
  "cjk_tables \<Rightarrow> encoding_fixer \<Rightarrow> filesystem \<Rightarrow> path
   \<Rightarrow> path option \<times> encoding_fixer \<times> filesystem" where
  "fix_filename_encoding t self fs file_path =
     (let filename = name file_path in
      if is_filename_valid filename then (None, self, fs)
      else
        let new_filename = apply_mojibake_fixes filename;
            new_path = joinpath (parent file_path) new_filename in
        if new_filename \<noteq> filename \<and> \<not> path_exists fs new_path then
          case rename fs file_path new_path of
            Inr fs' \<Rightarrow>
              (Some new_path,
               self\<lparr>problematic_files := problematic_files self @ [(file_path, new_path)]\<rparr>, fs')
          | Inl e \<Rightarrow> (None, self, fs)
        else try_encodings t self fs file_path encodings_to_try)"

text \<open>
  \<open>detect_encoding\<close>: the whole file goes to \<open>chardet.detect\<close>, whose answer (an encoding
  name or \<open>None\<close>) is a parameter of the model. An empty file and a failed read give
  \<open>None\<close>.
\<close>

type_synonym detector = "bytes \<Rightarrow> string option"

definition detect_encoding :: "detector \<Rightarrow> filesystem \<Rightarrow> path \<Rightarrow> string option" where
  "detect_encoding chardet fs file_path =
     (case read_bytes fs file_path of
        Inl e \<Rightarrow> None
      | Inr raw_data \<Rightarrow> if raw_data = [] then None else chardet raw_data)"

text \<open>
  \<open>fix_file_content_encoding\<close>. The codec that \<open>open(..., encoding=detected_encoding)\<close>
  finds for the detected name is the parameter \<open>codecs\<close> (\<open>None\<close>: LookupError). The
  file is read whole with \<open>errors='ignore'\<close>, then opened for writing, which empties it, and
  the text is written as UTF-8; every exception on the way ends the call with \<open>False\<close>.
\<close>

definition fix_file_content_encoding ::
  "detector \<Rightarrow> (string \<Rightarrow> codec option) \<Rightarrow> encoding_fixer \<Rightarrow> filesystem \<Rightarrow> path
   \<Rightarrow> bool \<times> encoding_fixer \<times> filesystem" where
  "fix_file_content_encoding chardet codecs self fs file_path =
     (if \<not> is_file fs file_path then (False, self, fs)
      else
        case read_bytes fs file_path of
          Inl e \<Rightarrow> (False, self, fs)
        | Inr data \<Rightarrow>
            if 0 \<in> set (take 1024 data) then (False, self, fs)
            else
              case detect_encoding chardet fs file_path of
                None \<Rightarrow> (False, self, fs)
              | Some detected_encoding \<Rightarrow>
                  if detected_encoding = [] \<or> lower detected_encoding = ''utf-8''
                  then (False, self, fs)
                  else
                    case codecs detected_encoding of
                      None \<Rightarrow> (False, self, fs)
                    | Some cd \<Rightarrow>
                        (case read_bytes fs file_path of
                           Inl e \<Rightarrow> (False, self, fs)
                         | Inr raw \<Rightarrow>
                             let content = universal_newlines (decode_ignore cd raw) in
                             case open_truncate fs file_path of
                               Inl e \<Rightarrow> (False, self, fs)
                             | Inr (handle, fs') \<Rightarrow>
                                 (case encode_utf8 content of
                                    Inl e \<Rightarrow> (False, self, fs')
                                  | Inr out \<Rightarrow>
                                      (True,
                                       self\<lparr>encoding_issues := encoding_issues self
                                          @ [(file_path, detected_encoding, ''utf-8'')]\<rparr>,
                                       write_bytes fs' handle out))))"

section \<open>Auxiliary notions for the proofs\<close>

text \<open>The rest of a pass over the table, after its first entry.\<close>

definition pass_rest :: "ustr \<Rightarrow> ustr" where
  "pass_rest s =
     foldl (\<lambda>new_filename (mojibake, correct). str_replace mojibake correct new_filename)
       s (tl mojibake_fixes)"

text \<open>None of the two-character patterns of the table occurs.\<close>

definition pair_free :: "ustr \<Rightarrow> bool" where
  "pair_free s = list_all (\<lambda>(mojibake, correct). \<not> contains mojibake s) (tl mojibake_fixes)"

text \<open>
  The test that guards the rename in the loop over \<open>encodings_to_try\<close>:
  \<open>decoded_name and self.is_filename_valid(decoded_name) and not new_path.exists()\<close>,
  false when the conversion raised.
\<close>

definition candidate_ok :: "filesystem \<Rightarrow> path \<Rightarrow> exn + ustr \<Rightarrow> bool" where
  "candidate_ok fs file_path r =
     (case r of
        Inl e \<Rightarrow> False
      | Inr dn \<Rightarrow> dn \<noteq> [] \<and> is_filename_valid dn \<and> \<not> path_exists fs (joinpath (parent file_path) dn))"



section \<open>Sample worlds\<close>

text \<open>A few entries of the interpreter's tables for \<open>gbk\<close>, \<open>gb2312\<close> and \<open>big5\<close>.\<close>

definition cjk_excerpt :: cjk_tables where
  "cjk_excerpt =
     \<lparr>gbk_table = (\<lambda>c d. map_of [((0xD6, 0xD0), 0x4E2D), ((0xCE, 0xC4), 0x6587), ((0x81, 0x40), 0x4E02)] (c, d)),
      gb2312_table = (\<lambda>c d. map_of [((0xD6, 0xD0), 0x4E2D), ((0xCE, 0xC4), 0x6587)] (c, d)),
      big5_table = (\<lambda>c d. map_of [((0xD6, 0xD0), 0x7B22), ((0xCE, 0xC4), 0x6045)] (c, d))\<rparr>"

text \<open>The \<open>ascii\<close> codec, and a registry that finds a codec whatever the case of its name.\<close>

definition ascii_decode :: codec where
  "ascii_decode bs = map (\<lambda>b. if b < 0x80 then Chars [unat b] else Unmappable [b]) bs"

definition sample_codecs :: "string \<Rightarrow> codec option" where
  "sample_codecs enc =
     (if lower enc = ''ascii'' then Some ascii_decode else lookup_codec cjk_excerpt (lower enc))"

text \<open>A detector that gives one answer.\<close>

definition answering :: "string \<Rightarrow> detector" where
  "answering enc bs = Some enc"

text \<open>A directory \<open>/d\<close>, the entries in it, and a store in which nothing is refused.\<close>

definition dir_d :: path where
  "dir_d = Path [47] [[100]]"

definition in_d :: "ustr \<Rightarrow> path" where
  "in_d n = Path [47] [[100], n]"

definition store :: "(path \<times> node) list \<Rightarrow> filesystem" where
  "store xs =
     \<lparr>nodes = (parts dir_d, Dir) # map (\<lambda>(p, n). (parts p, n)) xs, cwd = [],
      refused = (\<lambda>op. False)\<rparr>"

definition refusing :: "io_op \<Rightarrow> filesystem \<Rightarrow> filesystem" where
  "refusing x fs = fs\<lparr>refused := (\<lambda>op. op = x \<or> refused fs op)\<rparr>"

section \<open>The escape decoder\<close>

lemma hex_value_le: "is_hex_digit c \<Longrightarrow> hex_value c \<le> 15"
  by (auto simp: is_hex_digit_def hex_value_def)

lemma int16_four:
  "is_hex_digit a \<Longrightarrow> is_hex_digit b \<Longrightarrow> is_hex_digit c \<Longrightarrow> is_hex_digit d \<Longrightarrow>
   int16 [a, b, c, d] < 65536"
  using hex_value_le [of a] hex_value_le [of b] hex_value_le [of c] hex_value_le [of d]
  by (simp add: int16_def)

lemma match_escape_SomeD:
  "match_escape s = Some (g, r) \<Longrightarrow>
   \<exists>a b c d. s = 35 # 85 # a # b # c # d # r \<and> g = [a, b, c, d]
     \<and> is_hex_digit a \<and> is_hex_digit b \<and> is_hex_digit c \<and> is_hex_digit d"
  by (induction s rule: match_escape.induct) (auto split: if_splits)

lemma decode_hit:
  "is_hex_digit a \<Longrightarrow> is_hex_digit b \<Longrightarrow> is_hex_digit c \<Longrightarrow> is_hex_digit d \<Longrightarrow>
   decode_unicode_escape (35 # 85 # a # b # c # d # rest) = int16 [a, b, c, d] # decode_unicode_escape rest"
  using int16_four [of a b c d] by (simp add: replace_unicode_match_def)

lemma decode_miss:
  assumes "match_escape (x # xs) = None"
  shows "decode_unicode_escape (x # xs) = x # decode_unicode_escape xs"
proof (cases "x # xs" rule: decode_unicode_escape.cases)
  case (1 h u a b c d rest)
  then show ?thesis using assms by (simp del: match_escape.simps)
qed simp_all

lemma decode_no_escape: "\<not> search_escape s \<Longrightarrow> decode_unicode_escape s = s"
proof (induction s)
  case Nil
  show ?case by simp
next
  case (Cons x xs)
  have m: "match_escape (x # xs) = None"
    using Cons.prems by (cases "match_escape (x # xs)") (simp_all del: match_escape.simps)
  have "\<not> search_escape xs" using Cons.prems by simp
  then show ?case using Cons.IH m by (simp add: decode_miss del: match_escape.simps)
qed

lemma decode_leftmost:
  assumes "is_hex_digit a" "is_hex_digit b" "is_hex_digit c" "is_hex_digit d"
  shows "\<forall>i<length pre. match_escape (drop i (pre @ 35 # 85 # a # b # c # d # rest)) = None \<Longrightarrow>
         decode_unicode_escape (pre @ 35 # 85 # a # b # c # d # rest)
           = pre @ int16 [a, b, c, d] # decode_unicode_escape rest"
proof (induction pre)
  case Nil
  show ?case using assms by (simp only: append_Nil decode_hit)
next
  case (Cons x pre)
  have 0: "match_escape (x # (pre @ 35 # 85 # a # b # c # d # rest)) = None"
    using Cons.prems [rule_format, of 0] by simp
  have "\<forall>i<length pre. match_escape (drop i (pre @ 35 # 85 # a # b # c # d # rest)) = None"
  proof (intro allI impI)
    fix i assume "i < length pre"
    then show "match_escape (drop i (pre @ 35 # 85 # a # b # c # d # rest)) = None"
      using Cons.prems [rule_format, of "Suc i"] by simp
  qed
  then show ?case using Cons.IH 0 by (simp add: decode_miss del: match_escape.simps)
qed

text \<open>
  Claim C7. The escape decoder is a total function on strings. A string in which the pattern
  \<open>#U\<close> + four hex digits does not occur is returned unchanged. At the leftmost occurrence
  (no occurrence starts before it) the six characters are replaced by the one character
  whose code point is the value of the four digits, and decoding goes on after them, so
  occurrences are replaced one after the other without overlap. For a match, \<open>chr\<close> never
  raises. \<open>#U6d4b#U8bd5.txt\<close> decodes to U+6D4B U+8BD5 \<open>.txt\<close>, and decoding that name
  again changes nothing.
\<close>

theorem decode_unicode_escape_contract:
  "(\<not> search_escape s \<longrightarrow> decode_unicode_escape s = s)
   \<and> (is_hex_digit a \<and> is_hex_digit b \<and> is_hex_digit c \<and> is_hex_digit d
        \<and> (\<forall>i<length pre. match_escape (drop i (pre @ 35 # 85 # a # b # c # d # rest)) = None)
      \<longrightarrow> decode_unicode_escape (pre @ 35 # 85 # a # b # c # d # rest)
            = pre @ int16 [a, b, c, d] # decode_unicode_escape rest)
   \<and> (match_escape s = Some (hex_code, after) \<longrightarrow> replace_unicode_match hex_code = [int16 hex_code])
   \<and> decode_unicode_escape (ascii_of ''#U6d4b#U8bd5.txt'') = [0x6D4B, 0x8BD5] @ ascii_of ''.txt''
   \<and> decode_unicode_escape ([0x6D4B, 0x8BD5] @ ascii_of ''.txt'') = [0x6D4B, 0x8BD5] @ ascii_of ''.txt''"
proof (intro conjI impI)
  assume "\<not> search_escape s"
  then show "decode_unicode_escape s = s" by (rule decode_no_escape)
next
  assume "is_hex_digit a \<and> is_hex_digit b \<and> is_hex_digit c \<and> is_hex_digit d
        \<and> (\<forall>i<length pre. match_escape (drop i (pre @ 35 # 85 # a # b # c # d # rest)) = None)"
  then show "decode_unicode_escape (pre @ 35 # 85 # a # b # c # d # rest)
            = pre @ int16 [a, b, c, d] # decode_unicode_escape rest"
    using decode_leftmost by blast
next
  assume "match_escape s = Some (hex_code, after)"
  then obtain a b c d where "hex_code = [a, b, c, d]" "is_hex_digit a" "is_hex_digit b" "is_hex_digit c" "is_hex_digit d"
    using match_escape_SomeD by blast
  then show "replace_unicode_match hex_code = [int16 hex_code]"
    using int16_four [of a b c d] by (simp add: replace_unicode_match_def)
next
  show "decode_unicode_escape (ascii_of ''#U6d4b#U8bd5.txt'') = [0x6D4B, 0x8BD5] @ ascii_of ''.txt''"
    by (simp add: ascii_of_def replace_unicode_match_def int16_def hex_value_def is_hex_digit_def)
next
  show "decode_unicode_escape ([0x6D4B, 0x8BD5] @ ascii_of ''.txt'') = [0x6D4B, 0x8BD5] @ ascii_of ''.txt''"
    by (simp add: ascii_of_def)
qed

theorem decode_unicode_escape_contract_witness:
  "\<not> search_escape (ascii_of ''plain.txt'')
   \<and> decode_unicode_escape (ascii_of ''plain.txt'') = ascii_of ''plain.txt''
   \<and> is_hex_digit 48 \<and> is_hex_digit 52 \<and> is_hex_digit 49
   \<and> match_escape (ascii_of ''ab#U0041.txt'') = None
   \<and> match_escape (ascii_of ''b#U0041.txt'') = None
   \<and> decode_unicode_escape (ascii_of ''ab#U0041.txt'') = ascii_of ''abA.txt''
   \<and> match_escape (ascii_of ''#U0041.txt'') = Some (ascii_of ''0041'', ascii_of ''.txt'')
   \<and> replace_unicode_match (ascii_of ''0041'') = [65]"
proof -
  have h1: "\<not> search_escape (ascii_of ''plain.txt'')"
    by (simp add: ascii_of_def)
  have h2: "is_hex_digit 48 \<and> is_hex_digit 48 \<and> is_hex_digit 52 \<and> is_hex_digit 49"
    by (simp add: is_hex_digit_def)
  have h3: "\<forall>i<length (ascii_of ''ab''). match_escape (drop i (ascii_of ''ab'' @ 35 # 85 # 48 # 48 # 52 # 49 # ascii_of ''.txt'')) = None"
    by (simp add: ascii_of_def less_Suc_eq)
  have h4: "match_escape (ascii_of ''#U0041.txt'') = Some (ascii_of ''0041'', ascii_of ''.txt'')"
    by (simp add: ascii_of_def is_hex_digit_def)
  have e: "ascii_of ''ab#U0041.txt'' = ascii_of ''ab'' @ 35 # 85 # 48 # 48 # 52 # 49 # ascii_of ''.txt''"
    by (simp add: ascii_of_def)
  have v: "int16 [48, 48, 52, 49] = 65" by (simp add: int16_def hex_value_def)
  have d: "decode_unicode_escape (ascii_of ''.txt'') = ascii_of ''.txt''" by (simp add: ascii_of_def)
  note c = decode_unicode_escape_contract [of "ascii_of ''plain.txt''" 48 48 52 49 "ascii_of ''ab''" "ascii_of ''.txt''"]
  note c2 = decode_unicode_escape_contract [of "ascii_of ''#U0041.txt''" 48 48 52 49 "[]" "[]" "ascii_of ''0041''" "ascii_of ''.txt''"]
  have r1: "decode_unicode_escape (ascii_of ''plain.txt'') = ascii_of ''plain.txt''"
    using c h1 by blast
  have r2: "decode_unicode_escape (ascii_of ''ab'' @ 35 # 85 # 48 # 48 # 52 # 49 # ascii_of ''.txt'')
       = ascii_of ''ab'' @ int16 [48, 48, 52, 49] # decode_unicode_escape (ascii_of ''.txt'')"
    using c h2 h3 by blast
  have r3: "replace_unicode_match (ascii_of ''0041'') = [int16 (ascii_of ''0041'')]"
    using c2 h4 by blast
  have r2': "decode_unicode_escape (ascii_of ''ab#U0041.txt'') = ascii_of ''abA.txt''"
    using r2 by (simp only: e v d) (simp add: ascii_of_def)
  have r3': "replace_unicode_match (ascii_of ''0041'') = [65]"
    using r3 v by (simp add: ascii_of_def)
  have h5: "match_escape (ascii_of ''ab#U0041.txt'') = None \<and> match_escape (ascii_of ''b#U0041.txt'') = None"
    by (simp add: ascii_of_def)
  show ?thesis using h1 h2 h4 h5 r1 r2' r3' by simp
qed

section \<open>The mojibake table\<close>

declare str_replace.simps [simp del]

lemma take_eq_length_le: "take n s = old \<Longrightarrow> length old \<le> length s"
  by (induction s arbitrary: n old) (auto simp: take_Cons' split: if_splits)

lemma str_replace_Nil: "old \<noteq> [] \<Longrightarrow> str_replace old new [] = []"
  by (simp add: str_replace.simps)

lemma str_replace_hit:
  "old \<noteq> [] \<Longrightarrow> take (length old) s = old \<Longrightarrow>
   str_replace old new s = new @ str_replace old new (drop (length old) s)"
  by (subst str_replace.simps) auto

lemma str_replace_miss:
  "old \<noteq> [] \<Longrightarrow> take (length old) (x # xs) \<noteq> old \<Longrightarrow>
   str_replace old new (x # xs) = x # str_replace old new xs"
  by (subst str_replace.simps) simp

lemma str_replace_absent:
  "old \<noteq> [] \<Longrightarrow> \<not> contains old s \<Longrightarrow> str_replace old new s = s"
  by (induction s) (auto simp: str_replace_Nil str_replace_miss)

lemma length_str_replace_le:
  "old \<noteq> [] \<Longrightarrow> length new \<le> length old \<Longrightarrow> length (str_replace old new s) \<le> length s"
proof (induction "length s" arbitrary: s rule: less_induct)
  case less
  show ?case
  proof (cases s)
    case Nil
    with less.prems show ?thesis by (simp add: str_replace_Nil)
  next
    case (Cons x xs)
    show ?thesis
    proof (cases "take (length old) s = old")
      case True
      have le: "length old \<le> length s" using True by (rule take_eq_length_le)
      then have "length (drop (length old) s) < length s"
        using less.prems(1) Cons by simp
      then have "length (str_replace old new (drop (length old) s)) \<le> length (drop (length old) s)"
        using less by blast
      then show ?thesis
        using less.prems le by (simp add: str_replace_hit [OF less.prems(1) True])
    next
      case False
      have "length (str_replace old new xs) \<le> length xs"
        using less Cons by simp
      then show ?thesis using False less.prems(1) Cons by (simp add: str_replace_miss)
    qed
  qed
qed

lemma length_str_replace_less:
  "length new < length old \<Longrightarrow> contains old s \<Longrightarrow> length (str_replace old new s) < length s"
proof (induction s)
  case Nil
  then show ?case by simp
next
  case (Cons x xs)
  have ne: "old \<noteq> []" using Cons.prems(1) by auto
  show ?case
  proof (cases "take (length old) (x # xs) = old")
    case True
    have le: "length old \<le> length (x # xs)" using True by (rule take_eq_length_le)
    have "length (str_replace old new (drop (length old) (x # xs))) \<le> length (drop (length old) (x # xs))"
      using ne Cons.prems(1) by (intro length_str_replace_le) auto
    then show ?thesis
      using Cons.prems(1) le by (simp add: str_replace_hit [OF ne True])
  next
    case False
    then have "contains old xs" using Cons.prems(2) by simp
    then show ?thesis using Cons False ne by (simp add: str_replace_miss)
  qed
qed

text \<open>A pattern of two characters replaced by one character.\<close>

lemma pair_replace_hit: "str_replace [a, b] [y] (a # b # rest) = y # str_replace [a, b] [y] rest"
  by (simp add: str_replace_hit)

lemma pair_replace_miss:
  "\<not> (x = a \<and> (\<exists>t. xs = b # t)) \<Longrightarrow> str_replace [a, b] [y] (x # xs) = x # str_replace [a, b] [y] xs"
  by (cases xs) (auto simp: str_replace_miss)

lemma contains_pair_Cons:
  "contains [c, d] (x # xs) = ((x = c \<and> (\<exists>t. xs = d # t)) \<or> contains [c, d] xs)"
  by (cases xs) auto

lemma pair_replace_head:
  assumes "y \<noteq> d" "str_replace [a, b] [y] s = d # t"
  shows "\<exists>t'. s = d # t'"
proof (cases s)
  case Nil
  with assms show ?thesis by (simp add: str_replace_Nil)
next
  case (Cons x xs)
  show ?thesis
  proof (cases "x = a \<and> (\<exists>t. xs = b # t)")
    case True
    then show ?thesis using assms Cons by (auto simp: pair_replace_hit)
  next
    case False
    then show ?thesis using assms Cons by (simp add: pair_replace_miss)
  qed
qed

text \<open>
  Replacing one pair cannot create another pair, unless the new character belongs to it: two
  characters next to each other in the result that are both old were next to each other
  before.
\<close>

lemma pair_replace_keeps_absent:
  assumes "y \<noteq> c" "y \<noteq> d"
  shows "\<not> contains [c, d] s \<Longrightarrow> \<not> contains [c, d] (str_replace [a, b] [y] s)"
proof (induction "length s" arbitrary: s rule: less_induct)
  case less
  show ?case
  proof (cases s)
    case Nil
    then show ?thesis by (simp add: str_replace_Nil)
  next
    case (Cons x xs)
    show ?thesis
    proof (cases "x = a \<and> (\<exists>t. xs = b # t)")
      case True
      then obtain rest where s: "s = a # b # rest" using Cons by auto
      have "\<not> contains [c, d] rest"
        using less.prems s by (simp add: contains_pair_Cons del: contains.simps)
      then have "\<not> contains [c, d] (str_replace [a, b] [y] rest)"
        using less.hyps s by simp
      then show ?thesis
        using assms s by (auto simp: pair_replace_hit contains_pair_Cons simp del: contains.simps)
    next
      case False
      have "\<not> contains [c, d] xs"
        using less.prems Cons by (simp add: contains_pair_Cons del: contains.simps)
      then have IH: "\<not> contains [c, d] (str_replace [a, b] [y] xs)"
        using less.hyps Cons by simp
      show ?thesis
      proof
        assume "contains [c, d] (str_replace [a, b] [y] s)"
        then obtain t where xc: "x = c" and t: "str_replace [a, b] [y] xs = d # t"
          using IH False Cons
          by (auto simp: pair_replace_miss contains_pair_Cons simp del: contains.simps)
        from pair_replace_head [OF assms(2) t] obtain t' where "xs = d # t'" by blast
        then have "contains [c, d] s"
          using Cons xc by (simp add: contains_pair_Cons del: contains.simps)
        with less.prems show False by simp
      qed
    qed
  qed
qed

lemma pair_replace_removes:
  assumes "y \<noteq> a" "y \<noteq> b"
  shows "\<not> contains [a, b] (str_replace [a, b] [y] s)"
proof (induction "length s" arbitrary: s rule: less_induct)
  case less
  show ?case
  proof (cases s)
    case Nil
    then show ?thesis by (simp add: str_replace_Nil)
  next
    case (Cons x xs)
    show ?thesis
    proof (cases "x = a \<and> (\<exists>t. xs = b # t)")
      case True
      then obtain rest where s: "s = a # b # rest" using Cons by auto
      have "\<not> contains [a, b] (str_replace [a, b] [y] rest)"
        using less.hyps s by simp
      then show ?thesis
        using assms s by (auto simp: pair_replace_hit contains_pair_Cons simp del: contains.simps)
    next
      case False
      have IH: "\<not> contains [a, b] (str_replace [a, b] [y] xs)"
        using less.hyps Cons by simp
      show ?thesis
      proof
        assume "contains [a, b] (str_replace [a, b] [y] s)"
        then obtain t where xc: "x = a" and t: "str_replace [a, b] [y] xs = b # t"
          using IH False Cons
          by (auto simp: pair_replace_miss contains_pair_Cons simp del: contains.simps)
        from pair_replace_head [OF assms(2) t] obtain t' where "xs = b # t'" by blast
        with False xc show False by simp
      qed
    qed
  qed
qed

text \<open>One pass: the first entry, then the seven pairs.\<close>

lemma apply_mojibake_fixes_split:
  "apply_mojibake_fixes s = pass_rest (str_replace (fst (hd mojibake_fixes)) (snd (hd mojibake_fixes)) s)"
  by (simp add: apply_mojibake_fixes_def pass_rest_def mojibake_fixes_def)

lemma first_pattern: "fst (hd mojibake_fixes) \<noteq> [] \<and> length (snd (hd mojibake_fixes)) < length (fst (hd mojibake_fixes))"
  by (simp add: mojibake_fixes_def)

lemma pass_rest_pair_free: "pair_free (pass_rest s)"
  unfolding pair_free_def pass_rest_def mojibake_fixes_def
  by (simp add: pair_replace_removes pair_replace_keeps_absent del: contains.simps)

lemma pass_rest_id: "pair_free s \<Longrightarrow> pass_rest s = s"
  unfolding pair_free_def pass_rest_def mojibake_fixes_def
  by (simp add: str_replace_absent del: contains.simps)

lemma length_pass_rest: "length (pass_rest s) \<le> length s"
proof -
  have step: "\<And>a b y t. length (str_replace [a, b] [y] t) \<le> length t"
    by (rule length_str_replace_le) auto
  show ?thesis
    unfolding pass_rest_def mojibake_fixes_def
    apply simp
    apply (rule order_trans [OF step])+
    apply simp
    done
qed

text \<open>
  Claim C6, as stated, fails: the sixth entry turns U+00C3 U+00A4 into U+00E4, which can
  complete an occurrence of the first pattern that only the next pass replaces.
\<close>

theorem mojibake_twice_counterexample:
  "apply_mojibake_fixes [0xE6, 0x2013, 0x2021, 0xC3, 0xA4, 0xBB, 0xB6] = [0xE6, 0x2013, 0x2021, 0xE4, 0xBB, 0xB6]
   \<and> apply_mojibake_fixes (apply_mojibake_fixes [0xE6, 0x2013, 0x2021, 0xC3, 0xA4, 0xBB, 0xB6]) = [0x6587, 0x4EF6]"
  by (simp add: apply_mojibake_fixes_def mojibake_fixes_def str_replace.simps)

text \<open>
  Claim C6, amended. Applying the table twice gives the same result as applying it once
  exactly when the result of the first application does not contain the first pattern of the
  table; after one application none of the other patterns occurs any more.
\<close>

theorem mojibake_twice_iff:
  "(apply_mojibake_fixes (apply_mojibake_fixes s) = apply_mojibake_fixes s
     \<longleftrightarrow> \<not> contains (fst (hd mojibake_fixes)) (apply_mojibake_fixes s))
   \<and> pair_free (apply_mojibake_fixes s)"
proof (intro conjI iffI)
  show "pair_free (apply_mojibake_fixes s)"
    by (simp only: apply_mojibake_fixes_split [of s] pass_rest_pair_free)
next
  let ?t = "apply_mojibake_fixes s"
  let ?u = "str_replace (fst (hd mojibake_fixes)) (snd (hd mojibake_fixes)) ?t"
  assume eq: "apply_mojibake_fixes ?t = ?t"
  show "\<not> contains (fst (hd mojibake_fixes)) ?t"
  proof
    assume "contains (fst (hd mojibake_fixes)) ?t"
    then have "length ?u < length ?t"
      using first_pattern by (intro length_str_replace_less) auto
    then have "length (apply_mojibake_fixes ?t) < length ?t"
      using length_pass_rest [of ?u] by (simp only: apply_mojibake_fixes_split [of ?t])
    with eq show False by simp
  qed
next
  let ?t = "apply_mojibake_fixes s"
  assume nc: "\<not> contains (fst (hd mojibake_fixes)) ?t"
  have pf: "pair_free ?t"
    by (simp only: apply_mojibake_fixes_split [of s] pass_rest_pair_free)
  have "str_replace (fst (hd mojibake_fixes)) (snd (hd mojibake_fixes)) ?t = ?t"
    using nc first_pattern by (intro str_replace_absent) auto
  then show "apply_mojibake_fixes ?t = ?t"
    using pass_rest_id [OF pf] by (simp only: apply_mojibake_fixes_split [of ?t])
qed

theorem mojibake_twice_iff_witness:
  "\<not> contains (fst (hd mojibake_fixes)) (apply_mojibake_fixes [99, 97, 102, 0xC3, 0xA9])
   \<and> apply_mojibake_fixes (apply_mojibake_fixes [99, 97, 102, 0xC3, 0xA9]) = apply_mojibake_fixes [99, 97, 102, 0xC3, 0xA9]
   \<and> apply_mojibake_fixes [99, 97, 102, 0xC3, 0xA9] = [99, 97, 102, 0xE9]"
proof -
  have v: "apply_mojibake_fixes [99, 97, 102, 0xC3, 0xA9] = [99, 97, 102, 0xE9]"
    by (simp add: apply_mojibake_fixes_def mojibake_fixes_def str_replace.simps)
  have n: "\<not> contains (fst (hd mojibake_fixes)) (apply_mojibake_fixes [99, 97, 102, 0xC3, 0xA9])"
    by (simp add: v) (simp add: mojibake_fixes_def)
  show ?thesis
    using n v mojibake_twice_iff [of "[99, 97, 102, 0xC3, 0xA9]"] by blast
qed

section \<open>Evaluating the sample worlds\<close>

lemmas path_simps = name_def parent_def joinpath_def parse_root_def parse_parts_def in_d_def dir_d_def
lemmas store_simps = store_def refusing_def path_exists_def stat_def entries_def locate_def node_at_def
  is_file_def read_bytes_def rename_def move_subtree_def has_children_def open_truncate_def
  write_bytes_def
lemmas escape_simps = replace_unicode_match_def int16_def hex_value_def is_hex_digit_def

lemmas content_simps = fix_file_content_encoding_def detect_encoding_def answering_def sample_codecs_def
  lower_def lower_char_def ascii_decode_def encode_utf8_def utf8_char_def

lemmas codec_simps = decoded_name_def encode_latin1_def bytes_decode_ignore_def lookup_codec_def
  decode_ignore_def latin1_decode_def cp1252_decode_def cp1252_map_def cp1252_high_def cjk_excerpt_def
  is_filename_valid_def

section \<open>The loop over \<open>encodings_to_try\<close>\<close>

lemma decode_ignore_latin1: "decode_ignore latin1_decode bs = map unat bs"
  by (induction bs) (simp_all add: decode_ignore_def latin1_decode_def)

lemma latin1_round_trip:
  "list_all (\<lambda>c. c < 256) s \<Longrightarrow> map unat (map of_nat s :: bytes) = s"
  by (induction s) (simp_all add: unat_of_nat)

lemma decoded_name_latin1:
  "decoded_name t filename ''latin1'' =
     (if list_all (\<lambda>c. c < 256) filename then Inr filename else Inl UnicodeEncodeError)"
  by (simp add: decoded_name_def encode_latin1_def bytes_decode_ignore_def lookup_codec_def
      decode_ignore_latin1 latin1_round_trip del: map_map)

lemma try_encodings_skip:
  "\<not> candidate_ok fs p (decoded_name t (name p) from_enc) \<Longrightarrow>
   try_encodings t self fs p ((from_enc, to_enc) # rest) = try_encodings t self fs p rest"
  by (auto simp: candidate_ok_def Let_def split: sum.splits)

text \<open>
  Claim C10. A name that enters the loop is not valid (the function has returned before
  otherwise). For such a name the first candidate, Latin-1, never leads to a rename: either
  \<open>encode('latin1')\<close> raises, or decoding the bytes as Latin-1 gives the name back, which
  fails the validity test that guards the rename. The loop therefore behaves as the loop
  over the candidates after Latin-1.
\<close>

theorem latin1_candidate_never_renames:
  assumes "\<not> is_filename_valid (name file_path)"
  shows "(decoded_name t (name file_path) ''latin1'' = Inl UnicodeEncodeError
          \<or> decoded_name t (name file_path) ''latin1'' = Inr (name file_path))
     \<and> \<not> candidate_ok fs file_path (decoded_name t (name file_path) ''latin1'')
     \<and> try_encodings t self fs file_path ((''latin1'', to_enc) # rest)
         = try_encodings t self fs file_path rest
     \<and> try_encodings t self fs file_path encodings_to_try
         = try_encodings t self fs file_path (tl encodings_to_try)"
proof -
  have d: "decoded_name t (name file_path) ''latin1'' = Inl UnicodeEncodeError
          \<or> decoded_name t (name file_path) ''latin1'' = Inr (name file_path)"
    by (simp add: decoded_name_latin1)
  have n: "\<not> candidate_ok fs file_path (decoded_name t (name file_path) ''latin1'')"
    using assms by (simp add: decoded_name_latin1 candidate_ok_def)
  have s: "\<And>to_enc rest. try_encodings t self fs file_path ((''latin1'', to_enc) # rest)
         = try_encodings t self fs file_path rest"
    using n by (rule try_encodings_skip)
  have "try_encodings t self fs file_path encodings_to_try
         = try_encodings t self fs file_path (tl encodings_to_try)"
    unfolding encodings_to_try_def list.sel by (rule s)
  with d n s show ?thesis by blast
qed

theorem latin1_candidate_never_renames_witness:
  "\<not> is_filename_valid (name (in_d [0xE9]))
   \<and> decoded_name cjk_excerpt (name (in_d [0xE9])) ''latin1'' = Inr [0xE9]
   \<and> try_encodings cjk_excerpt \<lparr>problematic_files = [], encoding_issues = []\<rparr>
        (store [(in_d [0xE9], File [])]) (in_d [0xE9]) encodings_to_try
       = try_encodings cjk_excerpt \<lparr>problematic_files = [], encoding_issues = []\<rparr>
        (store [(in_d [0xE9], File [])]) (in_d [0xE9]) (tl encodings_to_try)"
proof -
  have h: "\<not> is_filename_valid (name (in_d [0xE9]))"
    by (simp add: path_simps is_filename_valid_def)
  have v: "decoded_name cjk_excerpt (name (in_d [0xE9])) ''latin1'' = Inr [0xE9]"
    by (simp add: path_simps codec_simps)
  show ?thesis
    using h v latin1_candidate_never_renames [OF h, of cjk_excerpt "store [(in_d [0xE9], File [])]"
        "\<lparr>problematic_files = [], encoding_issues = []\<rparr>" "''utf-8''" "[]"]
    by blast
qed



lemma reaches_brute_force:
  "\<not> is_filename_valid (name p) \<Longrightarrow>
   apply_mojibake_fixes (name p) = name p
     \<or> path_exists fs (joinpath (parent p) (apply_mojibake_fixes (name p))) \<Longrightarrow>
   fix_filename_encoding t self fs p = try_encodings t self fs p encodings_to_try"
  by (auto simp: fix_filename_encoding_def Let_def)




section \<open>Renames and existing entries\<close>

lemma try_encodings_exists_skip:
  "decoded_name t (name p) from_enc = Inr dn \<Longrightarrow> path_exists fs (joinpath (parent p) dn) \<Longrightarrow>
   try_encodings t self fs p ((from_enc, to_enc) # rest) = try_encodings t self fs p rest"
  by (rule try_encodings_skip) (simp add: candidate_ok_def)

lemma try_encodings_result:
  "try_encodings t self fs p encs = (r, self', fs') \<Longrightarrow>
   (case r of
      None \<Rightarrow> self' = self \<and> fs' = fs
    | Some q \<Rightarrow> \<not> path_exists fs q \<and> rename fs p q = Inr fs'
        \<and> self' = self\<lparr>problematic_files := problematic_files self @ [(p, q)]\<rparr>)"
proof (induction encs)
  case Nil
  then show ?case by auto
next
  case (Cons a encs)
  obtain e x where a: "a = (e, x)" by (cases a)
  show ?case
  proof (cases "try_encodings t self fs p (a # encs) = try_encodings t self fs p encs")
    case True
    with Cons show ?thesis by simp
  next
    case False
    then show ?thesis
      using Cons.prems a by (auto simp: Let_def split: sum.splits if_splits)
  qed
qed

lemma fix_filename_encoding_result:
  "fix_filename_encoding t self fs p = (r, self', fs') \<Longrightarrow>
   (case r of
      None \<Rightarrow> self' = self \<and> fs' = fs
    | Some q \<Rightarrow> \<not> path_exists fs q \<and> rename fs p q = Inr fs'
        \<and> self' = self\<lparr>problematic_files := problematic_files self @ [(p, q)]\<rparr>)"
  unfolding fix_filename_encoding_def Let_def
  by (auto split: if_splits sum.splits dest: try_encodings_result)

lemma fix_pathname_result:
  "fix_pathname u fs p = (r, u', fs') \<Longrightarrow>
   (if r then \<exists>q. \<not> path_exists fs q \<and> rename fs p q = Inr fs'
               \<and> u' = u\<lparr>fixed_files := fixed_files u @ [(p, q)]\<rparr>
    else u' = u \<and> fs' = fs)"
  unfolding fix_pathname_def Let_def
  by (auto split: if_splits sum.splits)

text \<open>
  What the guards do achieve: when \<open>exists()\<close> holds for the destination the strategy is
  passed over with nothing changed, and every rename that is made goes to a destination for
  which \<open>exists()\<close> was false.
\<close>

lemma existing_destination_skipped:
  "(path_exists fs (joinpath (parent p) (decode_unicode_escape (name p)))
      \<longrightarrow> fix_pathname u fs p = (False, u, fs))
   \<and> (\<not> is_filename_valid (name p)
        \<and> path_exists fs (joinpath (parent p) (apply_mojibake_fixes (name p)))
      \<longrightarrow> fix_filename_encoding t self fs p = try_encodings t self fs p encodings_to_try)
   \<and> (decoded_name t (name p) from_enc = Inr dn \<and> path_exists fs (joinpath (parent p) dn)
      \<longrightarrow> try_encodings t self fs p ((from_enc, to_enc) # rest) = try_encodings t self fs p rest)
   \<and> (fix_pathname u fs p = (True, u', fs')
      \<longrightarrow> (\<exists>q. \<not> path_exists fs q \<and> rename fs p q = Inr fs'
               \<and> u' = u\<lparr>fixed_files := fixed_files u @ [(p, q)]\<rparr>))
   \<and> (fix_pathname u fs p = (False, u', fs') \<longrightarrow> u' = u \<and> fs' = fs)
   \<and> (fix_filename_encoding t self fs p = (Some q, self', fs'')
      \<longrightarrow> \<not> path_exists fs q \<and> rename fs p q = Inr fs''
           \<and> self' = self\<lparr>problematic_files := problematic_files self @ [(p, q)]\<rparr>)
   \<and> (fix_filename_encoding t self fs p = (None, self', fs'') \<longrightarrow> self' = self \<and> fs'' = fs)"
proof (intro conjI impI)
  assume "path_exists fs (joinpath (parent p) (decode_unicode_escape (name p)))"
  then show "fix_pathname u fs p = (False, u, fs)"
    by (simp add: fix_pathname_def Let_def)
next
  assume "\<not> is_filename_valid (name p)
        \<and> path_exists fs (joinpath (parent p) (apply_mojibake_fixes (name p)))"
  then show "fix_filename_encoding t self fs p = try_encodings t self fs p encodings_to_try"
    by (simp add: reaches_brute_force)
next
  assume "decoded_name t (name p) from_enc = Inr dn \<and> path_exists fs (joinpath (parent p) dn)"
  then show "try_encodings t self fs p ((from_enc, to_enc) # rest) = try_encodings t self fs p rest"
    by (simp add: try_encodings_exists_skip)
next
  assume "fix_pathname u fs p = (True, u', fs')"
  from fix_pathname_result [OF this]
  show "\<exists>q. \<not> path_exists fs q \<and> rename fs p q = Inr fs'
               \<and> u' = u\<lparr>fixed_files := fixed_files u @ [(p, q)]\<rparr>"
    by simp
next
  assume "fix_pathname u fs p = (False, u', fs')"
  from fix_pathname_result [OF this] show "u' = u" and "fs' = fs" by simp_all
next
  assume a: "fix_filename_encoding t self fs p = (Some q, self', fs'')"
  from fix_filename_encoding_result [OF a]
  show "\<not> path_exists fs q" and "rename fs p q = Inr fs''"
    and "self' = self\<lparr>problematic_files := problematic_files self @ [(p, q)]\<rparr>"
    by simp_all
next
  assume a: "fix_filename_encoding t self fs p = (None, self', fs'')"
  from fix_filename_encoding_result [OF a] show "self' = self" and "fs'' = fs" by simp_all
qed

text \<open>
  Claim C4. Both tools test \<open>exists()\<close> before they rename, but \<open>exists()\<close> follows
  symbolic links: a link whose target is missing is an entry at the destination for which
  the test is false. In \<open>/d\<close>, with the file U+00C3 U+00A9 and a dangling link U+00E9, the
  mojibake step renames the file onto the link, which is lost; in the same way
  \<open>fix_pathname\<close> renames \<open>#U0041\<close> onto a dangling link \<open>A\<close>. The guard does not keep
  every existing entry from being overwritten.
\<close>

theorem dangling_link_destination_replaced:
  "entries (store [(in_d [0xC3, 0xA9], File [1]), (in_d [0xE9], Symlink [103, 111, 110, 101])]) (in_d [0xE9])
      = Some (Symlink [103, 111, 110, 101])
   \<and> \<not> path_exists (store [(in_d [0xC3, 0xA9], File [1]), (in_d [0xE9], Symlink [103, 111, 110, 101])])
         (in_d [0xE9])
   \<and> joinpath (parent (in_d [0xC3, 0xA9])) (apply_mojibake_fixes (name (in_d [0xC3, 0xA9]))) = in_d [0xE9]
   \<and> fst (fix_filename_encoding cjk_excerpt \<lparr>problematic_files = [], encoding_issues = []\<rparr>
         (store [(in_d [0xC3, 0xA9], File [1]), (in_d [0xE9], Symlink [103, 111, 110, 101])])
         (in_d [0xC3, 0xA9])) = Some (in_d [0xE9])
   \<and> entries (snd (snd (fix_filename_encoding cjk_excerpt \<lparr>problematic_files = [], encoding_issues = []\<rparr>
         (store [(in_d [0xC3, 0xA9], File [1]), (in_d [0xE9], Symlink [103, 111, 110, 101])])
         (in_d [0xC3, 0xA9])))) (in_d [0xE9]) = Some (File [1])
   \<and> entries (store [(in_d [35, 85, 48, 48, 52, 49], File [1]), (in_d [65], Symlink [103, 111, 110, 101])]) (in_d [65])
      = Some (Symlink [103, 111, 110, 101])
   \<and> \<not> path_exists (store [(in_d [35, 85, 48, 48, 52, 49], File [1]), (in_d [65], Symlink [103, 111, 110, 101])])
         (in_d [65])
   \<and> joinpath (parent (in_d [35, 85, 48, 48, 52, 49])) (decode_unicode_escape (name (in_d [35, 85, 48, 48, 52, 49])))
      = in_d [65]
   \<and> fst (fix_pathname \<lparr>fixed_files = []\<rparr>
         (store [(in_d [35, 85, 48, 48, 52, 49], File [1]), (in_d [65], Symlink [103, 111, 110, 101])])
         (in_d [35, 85, 48, 48, 52, 49]))
   \<and> entries (snd (snd (fix_pathname \<lparr>fixed_files = []\<rparr>
         (store [(in_d [35, 85, 48, 48, 52, 49], File [1]), (in_d [65], Symlink [103, 111, 110, 101])])
         (in_d [35, 85, 48, 48, 52, 49])))) (in_d [65]) = Some (File [1])"
  by (simp add: fix_filename_encoding_def fix_pathname_def apply_mojibake_fixes_def mojibake_fixes_def
      str_replace.simps is_filename_valid_def escape_simps path_simps store_simps Let_def)

section \<open>A rename that raises\<close>

text \<open>
  Claim C2. In the loop over the encodings a rename that raises is caught and the loop goes
  on with the next encoding. The rename of the mojibake step is caught too, but
  its handler returns \<open>None\<close> at once: the loop is never entered. For the file name
  U+00C3, space, \<open>x\<close> the table gives U+00E0 \<open>x\<close>; when the system refuses that rename,
  the call ends without a repair, although the loop, had it run, would have renamed the file
  to the \<open>gbk\<close> candidate (space, \<open>x\<close>).
\<close>

theorem mojibake_rename_error_stops_repair:
  "\<not> is_filename_valid (name (in_d [0xC3, 0x20, 0x78]))
   \<and> apply_mojibake_fixes (name (in_d [0xC3, 0x20, 0x78])) = [0xE0, 0x78]
   \<and> joinpath (parent (in_d [0xC3, 0x20, 0x78])) [0xE0, 0x78] = in_d [0xE0, 0x78]
   \<and> \<not> path_exists
         (refusing (OpRename (in_d [0xC3, 0x20, 0x78]) (in_d [0xE0, 0x78])) (store [(in_d [0xC3, 0x20, 0x78], File [])]))
         (in_d [0xE0, 0x78])
   \<and> rename (refusing (OpRename (in_d [0xC3, 0x20, 0x78]) (in_d [0xE0, 0x78])) (store [(in_d [0xC3, 0x20, 0x78], File [])]))
         (in_d [0xC3, 0x20, 0x78]) (in_d [0xE0, 0x78]) = Inl OSError
   \<and> fix_filename_encoding cjk_excerpt \<lparr>problematic_files = [], encoding_issues = []\<rparr>
         (refusing (OpRename (in_d [0xC3, 0x20, 0x78]) (in_d [0xE0, 0x78])) (store [(in_d [0xC3, 0x20, 0x78], File [])]))
         (in_d [0xC3, 0x20, 0x78])
       = (None, \<lparr>problematic_files = [], encoding_issues = []\<rparr>,
          refusing (OpRename (in_d [0xC3, 0x20, 0x78]) (in_d [0xE0, 0x78])) (store [(in_d [0xC3, 0x20, 0x78], File [])]))
   \<and> decoded_name cjk_excerpt (name (in_d [0xC3, 0x20, 0x78])) ''gbk'' = Inr [0x20, 0x78]
   \<and> fst (try_encodings cjk_excerpt \<lparr>problematic_files = [], encoding_issues = []\<rparr>
         (refusing (OpRename (in_d [0xC3, 0x20, 0x78]) (in_d [0xE0, 0x78])) (store [(in_d [0xC3, 0x20, 0x78], File [])]))
         (in_d [0xC3, 0x20, 0x78]) encodings_to_try)
       = Some (in_d [0x20, 0x78])"
  by (simp add: fix_filename_encoding_def apply_mojibake_fixes_def mojibake_fixes_def str_replace.simps
      encodings_to_try_def path_simps codec_simps store_simps Let_def)

section \<open>The parent directory\<close>

text \<open>
  Claim C9. Every destination is built as \<open>parent / new_name\<close>, but a new name that
  contains a separator is more than one component. The escape \<open>#U002f\<close> decodes to \<open>/\<close>:
  the file \<open>a#U002fb\<close> in \<open>/d\<close>, next to a directory \<open>a\<close>, is renamed to \<open>/d/a/b\<close> and
  so leaves its parent directory.
\<close>

theorem escaped_separator_leaves_directory:
  "decode_unicode_escape (name (in_d [97, 35, 85, 48, 48, 50, 102, 98])) = [97, 47, 98]
   \<and> joinpath (parent (in_d [97, 35, 85, 48, 48, 50, 102, 98])) [97, 47, 98] = Path [47] [[100], [97], [98]]
   \<and> fix_pathname \<lparr>fixed_files = []\<rparr>
        (store [(in_d [97, 35, 85, 48, 48, 50, 102, 98], File [1]), (in_d [97], Dir)])
        (in_d [97, 35, 85, 48, 48, 50, 102, 98])
      = (True,
         \<lparr>fixed_files = [(in_d [97, 35, 85, 48, 48, 50, 102, 98], Path [47] [[100], [97], [98]])]\<rparr>,
         snd (snd (fix_pathname \<lparr>fixed_files = []\<rparr>
           (store [(in_d [97, 35, 85, 48, 48, 50, 102, 98], File [1]), (in_d [97], Dir)])
           (in_d [97, 35, 85, 48, 48, 50, 102, 98]))))
   \<and> entries (snd (snd (fix_pathname \<lparr>fixed_files = []\<rparr>
           (store [(in_d [97, 35, 85, 48, 48, 50, 102, 98], File [1]), (in_d [97], Dir)])
           (in_d [97, 35, 85, 48, 48, 50, 102, 98])))) (Path [47] [[100], [97], [98]]) = Some (File [1])
   \<and> entries (snd (snd (fix_pathname \<lparr>fixed_files = []\<rparr>
           (store [(in_d [97, 35, 85, 48, 48, 50, 102, 98], File [1]), (in_d [97], Dir)])
           (in_d [97, 35, 85, 48, 48, 50, 102, 98])))) (in_d [97, 35, 85, 48, 48, 50, 102, 98]) = None
   \<and> parent (in_d [97, 35, 85, 48, 48, 50, 102, 98]) = dir_d
   \<and> parent (Path [47] [[100], [97], [98]]) = in_d [97]
   \<and> in_d [97] \<noteq> dir_d"
  by (simp add: fix_pathname_def Let_def path_simps store_simps escape_simps)

section \<open>Content repair\<close>





text \<open>
  Claim C5, as stated, fails. The guard compares the detected name with \<open>utf-8\<close> only, and
  a file of 7-bit bytes (which is UTF-8 text) is reported as \<open>ascii\<close>: it is read and
  written back, the call returns \<open>True\<close>, and with the newline translation of text mode
  the bytes \<open>a\<close> CR LF \<open>b\<close> become \<open>a\<close> LF \<open>b\<close>.
\<close>

theorem ascii_file_rewritten_counterexample:
  "encode_utf8 [97, 13, 10, 98] = Inr [97, 13, 10, 98]
   \<and> detect_encoding (answering ''ascii'') (store [(in_d [98], File [97, 13, 10, 98])]) (in_d [98]) = Some ''ascii''
   \<and> fst (fix_file_content_encoding (answering ''ascii'') sample_codecs
        \<lparr>problematic_files = [], encoding_issues = []\<rparr>
        (store [(in_d [98], File [97, 13, 10, 98])]) (in_d [98]))
   \<and> entries (snd (snd (fix_file_content_encoding (answering ''ascii'') sample_codecs
        \<lparr>problematic_files = [], encoding_issues = []\<rparr>
        (store [(in_d [98], File [97, 13, 10, 98])]) (in_d [98])))) (in_d [98]) = Some (File [97, 10, 98])"
  by (simp add: content_simps store_simps path_simps decode_ignore_def)

text \<open>
  Claim C5, amended. Whenever detection yields no encoding, or an encoding whose name is
  \<open>utf-8\<close> up to case, the call returns \<open>False\<close> and leaves the file, the rest of the
  store and the object unchanged.
\<close>

theorem target_encoding_detected_skips:
  assumes "detect_encoding chardet fs p = None
           \<or> (\<exists>enc. detect_encoding chardet fs p = Some enc \<and> lower enc = ''utf-8'')"
  shows "fix_file_content_encoding chardet codecs self fs p = (False, self, fs)"
  using assms by (auto simp: fix_file_content_encoding_def split: sum.splits option.splits)

theorem target_encoding_detected_skips_witness:
  "detect_encoding (answering ''UTF-8'') (store [(in_d [98], File [0xC3, 0xA9])]) (in_d [98]) = Some ''UTF-8''
   \<and> lower ''UTF-8'' = ''utf-8''
   \<and> fix_file_content_encoding (answering ''UTF-8'') sample_codecs
        \<lparr>problematic_files = [], encoding_issues = []\<rparr> (store [(in_d [98], File [0xC3, 0xA9])]) (in_d [98])
      = (False, \<lparr>problematic_files = [], encoding_issues = []\<rparr>, store [(in_d [98], File [0xC3, 0xA9])])
   \<and> detect_encoding (answering ''ascii'') (store [(in_d [98], File [])]) (in_d [98]) = None
   \<and> fix_file_content_encoding (answering ''ascii'') sample_codecs
        \<lparr>problematic_files = [], encoding_issues = []\<rparr> (store [(in_d [98], File [])]) (in_d [98])
      = (False, \<lparr>problematic_files = [], encoding_issues = []\<rparr>, store [(in_d [98], File [])])"
proof -
  have h1: "detect_encoding (answering ''UTF-8'') (store [(in_d [98], File [0xC3, 0xA9])]) (in_d [98]) = Some ''UTF-8''"
    by (simp add: detect_encoding_def answering_def store_simps path_simps)
  have h2: "lower ''UTF-8'' = ''utf-8''"
    by (simp add: lower_def lower_char_def)
  have h3: "detect_encoding (answering ''ascii'') (store [(in_d [98], File [])]) (in_d [98]) = None"
    by (simp add: detect_encoding_def answering_def store_simps path_simps)
  note t1 = target_encoding_detected_skips [where chardet = "answering ''UTF-8''"
      and fs = "store [(in_d [98], File [0xC3, 0xA9])]" and p = "in_d [98]" and codecs = sample_codecs
      and self = "\<lparr>problematic_files = [], encoding_issues = []\<rparr>"]
  note t2 = target_encoding_detected_skips [where chardet = "answering ''ascii''"
      and fs = "store [(in_d [98], File [])]" and p = "in_d [98]" and codecs = sample_codecs
      and self = "\<lparr>problematic_files = [], encoding_issues = []\<rparr>"]
  have r1: "fix_file_content_encoding (answering ''UTF-8'') sample_codecs
        \<lparr>problematic_files = [], encoding_issues = []\<rparr> (store [(in_d [98], File [0xC3, 0xA9])]) (in_d [98])
      = (False, \<lparr>problematic_files = [], encoding_issues = []\<rparr>, store [(in_d [98], File [0xC3, 0xA9])])"
    using t1 h1 h2 by blast
  have r2: "fix_file_content_encoding (answering ''ascii'') sample_codecs
        \<lparr>problematic_files = [], encoding_issues = []\<rparr> (store [(in_d [98], File [])]) (in_d [98])
      = (False, \<lparr>problematic_files = [], encoding_issues = []\<rparr>, store [(in_d [98], File [])])"
    using t2 h3 by blast
  show ?thesis using h1 h2 h3 r1 r2 by blast
qed








end
